theory Spec2Isabelle
  imports Main "HOL-Library.Monad_Syntax"
begin

section \<open>The date helpers of \<^verbatim>\<open>src/services/pocketBase/pocketBase.ts\<close>\<close>

text \<open>
  The module converts between JavaScript \<^verbatim>\<open>Date\<close> objects and the space-separated
  RFC3339 strings that the record store expects. Its four functions are embedded below:
  \<^verbatim>\<open>dateToRFC3339Parts\<close>, \<^verbatim>\<open>dateToRFC3339\<close>, \<^verbatim>\<open>rfc3339ToDate\<close> and
  \<^verbatim>\<open>assertRFC3339Date\<close>.
\<close>

subsection \<open>Errors and results\<close>

text \<open>
  \<^verbatim>\<open>Error<T>\<close> is a record of a discriminant and a message; the discriminants are the
  string literal types the module declares.
\<close>

datatype ErrorType = deleteRecord | createRecord | getFullRecordList | dateInvalid | dateInvalidFormat

record Error =
  type :: ErrorType
  message :: string

text \<open>
  A call ends in one of three ways: \<^verbatim>\<open>Effect.succeed\<close>, \<^verbatim>\<open>Effect.fail\<close> with a typed
  error value, or a raised JavaScript exception (\<^verbatim>\<open>throw new Error(msg)\<close>).
\<close>

datatype 'a Effect = Succeed 'a | Fail Error | Thrown string

fun Effect_map :: "('a \<Rightarrow> 'b) \<Rightarrow> 'a Effect \<Rightarrow> 'b Effect" where
  "Effect_map f (Succeed a) = Succeed (f a)"
| "Effect_map f (Fail e) = Fail e"
| "Effect_map f (Thrown m) = Thrown m"

fun Effect_flatMap :: "('a \<Rightarrow> 'b Effect) \<Rightarrow> 'a Effect \<Rightarrow> 'b Effect" where
  "Effect_flatMap f (Succeed a) = f a"
| "Effect_flatMap f (Fail e) = Fail e"
| "Effect_flatMap f (Thrown m) = Thrown m"

subsection \<open>JavaScript strings and arrays\<close>

text \<open>
  \<^verbatim>\<open>s.indexOf(c)\<close>, \<^verbatim>\<open>s.split(c)\<close> and \<^verbatim>\<open>parts.join(c)\<close>, for the one-character
  separators the module uses. \<^verbatim>\<open>indexOf\<close> answers \<open>-1\<close> when the character is absent;
  \<^verbatim>\<open>split\<close> always returns at least one segment. A string is a list of characters; the
  module compares characters with the space and with \<^verbatim>\<open>T\<close> only and passes every other
  one through.
\<close>

fun indexOf :: "string \<Rightarrow> char \<Rightarrow> int" where
  "indexOf [] c = -1"
| "indexOf (x # xs) c =
     (if x = c then 0 else (let i = indexOf xs c in if i = -1 then -1 else i + 1))"

fun split :: "string \<Rightarrow> char \<Rightarrow> string list" where
  "split [] c = [[]]"
| "split (x # xs) c =
     (if x = c then [] # split xs c
      else (case split xs c of [] \<Rightarrow> [[x]] | p # ps \<Rightarrow> (x # p) # ps))"

fun join :: "string list \<Rightarrow> char \<Rightarrow> string" where
  "join [] c = []"
| "join [p] c = p"
| "join (p # q # ps) c = p @ c # join (q # ps) c"

subsection \<open>Dates and the platform\<close>

text \<open>
  A \<^verbatim>\<open>Date\<close> holds a time value: a whole number of milliseconds since the epoch, or NaN
  (\<open>None\<close>) for an invalid date. \<^verbatim>\<open>TimeClip\<close> keeps every time value a \<^verbatim>\<open>Date\<close> can hold
  within 8.64e15 milliseconds of the epoch.
\<close>

datatype Date = Date (getTime: "int option")

definition isNaN :: "int option \<Rightarrow> bool" where
  "isNaN v = (v = None)"

definition maxTime :: int where
  "maxTime = 8640000000000000"

definition inTimeRange :: "int \<Rightarrow> bool" where
  "inTimeRange t = (- maxTime \<le> t \<and> t \<le> maxTime)"

fun TimeClip :: "int option \<Rightarrow> int option" where
  "TimeClip None = None"
| "TimeClip (Some t) = (if inTimeRange t then Some t else None)"

text \<open>
  The two built-ins of the host that the module calls are parameters of the embedding:
  \<^verbatim>\<open>Date.prototype.toISOString\<close> on a valid time value and the string parser behind
  \<^verbatim>\<open>new Date(string)\<close>.
\<close>

record Platform =
  toISOString :: "int \<Rightarrow> string"
  parse :: "string \<Rightarrow> int option"

definition newDate :: "Platform \<Rightarrow> string \<Rightarrow> Date" where
  "newDate P s = Date (TimeClip (parse P s))"

subsection \<open>The module's functions\<close>

text \<open>
  In \<^verbatim>\<open>dateToRFC3339Parts\<close> the test \<^verbatim>\<open>isNaN(date.getTime())\<close> is the case distinction on the
  time value; the two-element array it returns is a list of two strings.
\<close>

definition dateToRFC3339Parts :: "Platform \<Rightarrow> Date \<Rightarrow> string list Effect" where
  "dateToRFC3339Parts P date =
     (case getTime date of
        None \<Rightarrow> Fail \<lparr>type = dateInvalid, message = ''The provided date is invalid.''\<rparr>
      | Some t \<Rightarrow>
          let parts = split (toISOString P t) CHR ''T'';
              parts = (if length parts \<noteq> 2 then split (toISOString P t) CHR '' '' else parts)
          in if length parts \<noteq> 2
             then Thrown ''Expected date to ISO string to contain a 'T' or ' ' separator.''
             else Succeed parts)"

definition dateToRFC3339 :: "Platform \<Rightarrow> Date \<Rightarrow> string Effect" where
  "dateToRFC3339 P date =
     Effect_map (\<lambda>parts. join parts CHR '' '') (dateToRFC3339Parts P date)"

text \<open>
  \<^verbatim>\<open>rfc3339ToDate\<close> is the only function that constructs a \<^verbatim>\<open>Date\<close>. Its embedding
  returns, next to the result, the list of strings that \<^verbatim>\<open>new Date\<close> was called with.
\<close>

definition dquote :: char where
  "dquote = CHR 0x22"

definition rfc3339ToDate :: "Platform \<Rightarrow> string \<Rightarrow> string list \<times> Date Effect" where
  "rfc3339ToDate P dateString =
     (if dateString = [] then
        ([], Fail \<lparr>type = dateInvalidFormat, message = ''The provided date string is empty.''\<rparr>)
      else
        let formattedDate =
              (if indexOf dateString CHR '' '' \<noteq> -1 \<and> indexOf dateString CHR ''T'' = -1
               then join (split dateString CHR '' '') CHR ''T''
               else dateString);
            date = newDate P formattedDate
        in ([formattedDate],
            if isNaN (getTime date) then
              Fail \<lparr>type = dateInvalidFormat,
                    message = ''The provided date string '' @ [dquote] @ dateString @ [dquote]
                              @ '' is invalid.''\<rparr>
            else Succeed date))"

definition assertRFC3339Date :: "Platform \<Rightarrow> string \<Rightarrow> string list \<times> string Effect" where
  "assertRFC3339Date P dateString =
     (let r = rfc3339ToDate P dateString
      in (fst r, Effect_flatMap (\<lambda>date. dateToRFC3339 P date) (snd r)))"

subsection \<open>The ECMAScript host: time values and the calendar\<close>

text \<open>
  The host functions follow ECMA-262, section "Date Objects". A time value counts
  milliseconds since 1970-01-01T00:00:00Z in the proleptic Gregorian calendar, in UTC.
\<close>

definition msPerDay :: int where "msPerDay = 86400000"
definition msPerHour :: int where "msPerHour = 3600000"
definition msPerMinute :: int where "msPerMinute = 60000"
definition msPerSecond :: int where "msPerSecond = 1000"

definition Day :: "int \<Rightarrow> int" where
  "Day t = t div msPerDay"

definition TimeWithinDay :: "int \<Rightarrow> int" where
  "TimeWithinDay t = t mod msPerDay"

definition DaysInYear :: "int \<Rightarrow> int" where
  "DaysInYear y =
     (if y mod 4 \<noteq> 0 then 365
      else if y mod 100 \<noteq> 0 then 366
      else if y mod 400 \<noteq> 0 then 365
      else 366)"

definition DayFromYear :: "int \<Rightarrow> int" where
  "DayFromYear y =
     365 * (y - 1970) + (y - 1969) div 4 - (y - 1901) div 100 + (y - 1601) div 400"

definition TimeFromYear :: "int \<Rightarrow> int" where
  "TimeFromYear y = msPerDay * DayFromYear y"

text \<open>
  ECMA-262 defines \<^verbatim>\<open>YearFromTime(t)\<close> as the largest year \<open>y\<close> with
  \<^verbatim>\<open>TimeFromYear(y)\<close> not after \<^verbatim>\<open>t\<close>. It is computed here from the day number by the
  cycles of 400, 100, 4 and 1 years that start on 1601-01-01 (day \<open>-134774\<close>); lemma
  \<open>YearFromTime_largest\<close> below shows that the result is the year of that definition.
\<close>

definition YearFromDay :: "int \<Rightarrow> int" where
  "YearFromDay d =
     (let n = d + 134774;
          a = n div 146097;
          r = n mod 146097;
          c = min 3 (r div 36524);
          r2 = r - 36524 * c;
          q = r2 div 1461;
          r3 = r2 mod 1461;
          k = min 3 (r3 div 365)
      in 1601 + 400 * a + 100 * c + 4 * q + k)"

definition YearFromTime :: "int \<Rightarrow> int" where
  "YearFromTime t = YearFromDay (Day t)"

definition InLeapYear :: "int \<Rightarrow> int" where
  "InLeapYear t = (if DaysInYear (YearFromTime t) = 366 then 1 else 0)"

definition DayWithinYear :: "int \<Rightarrow> int" where
  "DayWithinYear t = Day t - DayFromYear (YearFromTime t)"

definition MonthFromTime :: "int \<Rightarrow> int" where
  "MonthFromTime t =
     (let d = DayWithinYear t; l = InLeapYear t
      in if d < 31 then 0
         else if d < 59 + l then 1
         else if d < 90 + l then 2
         else if d < 120 + l then 3
         else if d < 151 + l then 4
         else if d < 181 + l then 5
         else if d < 212 + l then 6
         else if d < 243 + l then 7
         else if d < 273 + l then 8
         else if d < 304 + l then 9
         else if d < 334 + l then 10
         else 11)"

definition DateFromTime :: "int \<Rightarrow> int" where
  "DateFromTime t =
     (let d = DayWithinYear t; l = InLeapYear t; m = MonthFromTime t
      in if m = 0 then d + 1
         else if m = 1 then d - 30
         else if m = 2 then d - 58 - l
         else if m = 3 then d - 89 - l
         else if m = 4 then d - 119 - l
         else if m = 5 then d - 150 - l
         else if m = 6 then d - 180 - l
         else if m = 7 then d - 211 - l
         else if m = 8 then d - 242 - l
         else if m = 9 then d - 272 - l
         else if m = 10 then d - 303 - l
         else d - 333 - l)"

definition HourFromTime :: "int \<Rightarrow> int" where
  "HourFromTime t = (t div msPerHour) mod 24"

definition MinFromTime :: "int \<Rightarrow> int" where
  "MinFromTime t = (t div msPerMinute) mod 60"

definition SecFromTime :: "int \<Rightarrow> int" where
  "SecFromTime t = (t div msPerSecond) mod 60"

definition msFromTime :: "int \<Rightarrow> int" where
  "msFromTime t = t mod msPerSecond"

text \<open>
  \<^verbatim>\<open>MakeDay\<close>, \<^verbatim>\<open>MakeTime\<close> and \<^verbatim>\<open>MakeDate\<close> for fields that are already in range
  (month \<open>0..11\<close>): the day number of the first of the month, plus the date.
\<close>

definition DaysBeforeMonth :: "int \<Rightarrow> int \<Rightarrow> int" where
  "DaysBeforeMonth m l =
     (if m = 0 then 0
      else if m = 1 then 31
      else if m = 2 then 59 + l
      else if m = 3 then 90 + l
      else if m = 4 then 120 + l
      else if m = 5 then 151 + l
      else if m = 6 then 181 + l
      else if m = 7 then 212 + l
      else if m = 8 then 243 + l
      else if m = 9 then 273 + l
      else if m = 10 then 304 + l
      else 334 + l)"

definition LeapDays :: "int \<Rightarrow> int" where
  "LeapDays y = (if DaysInYear y = 366 then 1 else 0)"

definition DaysInMonth :: "int \<Rightarrow> int \<Rightarrow> int" where
  "DaysInMonth y m =
     (if m = 11 then 31 else DaysBeforeMonth (m + 1) (LeapDays y) - DaysBeforeMonth m (LeapDays y))"

definition MakeDay :: "int \<Rightarrow> int \<Rightarrow> int \<Rightarrow> int" where
  "MakeDay year month date = DayFromYear year + DaysBeforeMonth month (LeapDays year) + date - 1"

definition MakeTime :: "int \<Rightarrow> int \<Rightarrow> int \<Rightarrow> int \<Rightarrow> int" where
  "MakeTime hour minute sec ms =
     hour * msPerHour + minute * msPerMinute + sec * msPerSecond + ms"

definition MakeDate :: "int \<Rightarrow> int \<Rightarrow> int" where
  "MakeDate day time = day * msPerDay + time"

subsection \<open>The ECMAScript host: the date-time string format\<close>

text \<open>
  \<^verbatim>\<open>toISOString\<close> writes \<^verbatim>\<open>YYYY-MM-DDTHH:mm:ss.sssZ\<close>, and for a year outside
  \<open>0..9999\<close> the expanded form with a sign and six digits of year.
\<close>

definition digitChar :: "nat \<Rightarrow> char" where
  "digitChar n = ''0123456789'' ! (n mod 10)"

definition isDigit :: "char \<Rightarrow> bool" where
  "isDigit c = (48 \<le> (of_char c :: nat) \<and> (of_char c :: nat) \<le> 57)"

definition digitVal :: "char \<Rightarrow> nat" where
  "digitVal c = of_char c - 48"

fun pad :: "nat \<Rightarrow> nat \<Rightarrow> string" where
  "pad 0 n = []"
| "pad (Suc w) n = digitChar (n div 10 ^ w) # pad w n"

definition yearString :: "int \<Rightarrow> string" where
  "yearString y =
     (if 0 \<le> y \<and> y \<le> 9999 then pad 4 (nat y)
      else (if y < 0 then CHR ''-'' else CHR ''+'') # pad 6 (nat \<bar>y\<bar>))"

definition isoDate :: "int \<Rightarrow> string" where
  "isoDate t =
     yearString (YearFromTime t) @ ''-'' @ pad 2 (nat (MonthFromTime t + 1)) @ ''-''
     @ pad 2 (nat (DateFromTime t))"

definition isoTime :: "int \<Rightarrow> string" where
  "isoTime t =
     pad 2 (nat (HourFromTime t)) @ '':'' @ pad 2 (nat (MinFromTime t)) @ '':''
     @ pad 2 (nat (SecFromTime t)) @ ''.'' @ pad 3 (nat (msFromTime t)) @ ''Z''"

definition ecmaToISOString :: "int \<Rightarrow> string" where
  "ecmaToISOString t = isoDate t @ ''T'' @ isoTime t"

text \<open>
  The parser behind \<^verbatim>\<open>new Date(string)\<close> must read the complete UTC form of the
  date-time string format, expanded years included. \<open>parseDateTime\<close> reads exactly that
  form, with every field in its range, and nothing else.
\<close>

fun readDigits :: "nat \<Rightarrow> string \<Rightarrow> (nat \<times> string) option" where
  "readDigits 0 s = Some (0, s)"
| "readDigits (Suc w) [] = None"
| "readDigits (Suc w) (c # cs) =
     (if isDigit c then
        (case readDigits w cs of
           None \<Rightarrow> None
         | Some (v, r) \<Rightarrow> Some (digitVal c * 10 ^ w + v, r))
      else None)"

fun expect :: "char \<Rightarrow> string \<Rightarrow> string option" where
  "expect c [] = None"
| "expect c (x # xs) = (if x = c then Some xs else None)"

definition readYear :: "string \<Rightarrow> (int \<times> string) option" where
  "readYear s =
     (case s of
        [] \<Rightarrow> None
      | c # cs \<Rightarrow>
          if c = CHR ''+'' then
            (case readDigits 6 cs of None \<Rightarrow> None | Some (v, r) \<Rightarrow> Some (int v, r))
          else if c = CHR ''-'' then
            (case readDigits 6 cs of
               None \<Rightarrow> None
             | Some (v, r) \<Rightarrow> if v = 0 then None else Some (- int v, r))
          else
            (case readDigits 4 s of None \<Rightarrow> None | Some (v, r) \<Rightarrow> Some (int v, r)))"

definition parseDateTime :: "string \<Rightarrow> int option" where
  "parseDateTime s = do {
     (year, s) \<leftarrow> readYear s;
     s \<leftarrow> expect CHR ''-'' s;
     (month, s) \<leftarrow> readDigits 2 s;
     s \<leftarrow> expect CHR ''-'' s;
     (date, s) \<leftarrow> readDigits 2 s;
     s \<leftarrow> expect CHR ''T'' s;
     (hour, s) \<leftarrow> readDigits 2 s;
     s \<leftarrow> expect CHR '':'' s;
     (minute, s) \<leftarrow> readDigits 2 s;
     s \<leftarrow> expect CHR '':'' s;
     (sec, s) \<leftarrow> readDigits 2 s;
     s \<leftarrow> expect CHR ''.'' s;
     (ms, s) \<leftarrow> readDigits 3 s;
     s \<leftarrow> expect CHR ''Z'' s;
     if s = [] \<and> 1 \<le> month \<and> month \<le> 12 \<and> 1 \<le> date
        \<and> int date \<le> DaysInMonth year (int month - 1)
        \<and> hour \<le> 23 \<and> minute \<le> 59 \<and> sec \<le> 59
     then Some (MakeDate (MakeDay year (int month - 1) (int date))
                         (MakeTime (int hour) (int minute) (int sec) (int ms)))
     else None
   }"

text \<open>
  For any other string the standard lets the host fall back to formats of its own, so
  what the host answers there is the parameter \<open>other\<close>.
\<close>

definition ecmaParse :: "(string \<Rightarrow> int option) \<Rightarrow> string \<Rightarrow> int option" where
  "ecmaParse other s = (case parseDateTime s of Some t \<Rightarrow> Some t | None \<Rightarrow> other s)"

definition ECMAScript :: "(string \<Rightarrow> int option) \<Rightarrow> Platform" where
  "ECMAScript other = \<lparr>toISOString = ecmaToISOString, parse = ecmaParse other\<rparr>"

text \<open>A host with no date format of its own: whatever is not in the standard form is NaN.\<close>

definition rejectOther :: "string \<Rightarrow> int option" where
  "rejectOther s = None"

subsection \<open>Vocabulary of the specification\<close>

text \<open>
  The specification describes strings by templates such as \<^verbatim>\<open>YYYY-MM-DD HH:MM:SS.sssZ\<close>:
  each of the letters \<^verbatim>\<open>Y M D H S s\<close> stands for one decimal digit and every other
  character for itself.
\<close>

fun matchesTemplate :: "string \<Rightarrow> string \<Rightarrow> bool" where
  "matchesTemplate [] [] = True"
| "matchesTemplate (p # ps) (c # cs) =
     ((if p \<in> set ''YMDHSs'' then isDigit c else c = p) \<and> matchesTemplate ps cs)"
| "matchesTemplate _ _ = False"

text \<open>
  Replacing only the first occurrence of a character, as the specification words the
  separator rewrite (JavaScript's \<^verbatim>\<open>s.replace(c, d)\<close>), and replacing every occurrence.
\<close>

fun replaceFirst :: "char \<Rightarrow> char \<Rightarrow> string \<Rightarrow> string" where
  "replaceFirst c d [] = []"
| "replaceFirst c d (x # xs) = (if x = c then d # xs else x # replaceFirst c d xs)"

definition replaceAll :: "char \<Rightarrow> char \<Rightarrow> string \<Rightarrow> string" where
  "replaceAll c d s = map (\<lambda>x. if x = c then d else x) s"

text \<open>
  A serializer that breaks the contract of \<^verbatim>\<open>toISOString\<close> by separating date and time
  with a space, to exercise the fallback of \<^verbatim>\<open>dateToRFC3339Parts\<close>.
\<close>

definition spaceSeparatedISOString :: "int \<Rightarrow> string" where
  "spaceSeparatedISOString t = replaceAll CHR ''T'' CHR '' '' (ecmaToISOString t)"

definition spaceSeparatedHost :: Platform where
  "spaceSeparatedHost = \<lparr>toISOString = spaceSeparatedISOString, parse = rejectOther\<rparr>"

text \<open>A serializer that breaks the contract by writing the date alone, with no separator.\<close>

definition dateOnlyHost :: Platform where
  "dateOnlyHost = \<lparr>toISOString = isoDate, parse = rejectOther\<rparr>"

section \<open>Properties of the host model\<close>

subsection \<open>Years\<close>

lemma divmod_unique:
  fixes q r m :: int
  assumes "0 \<le> r" "r < m"
  shows "(q * m + r) div m = q" and "(q * m + r) mod m = r"
  using assms by simp_all

text \<open>
  A year written as 1601 plus whole cycles of 400, 100, 4 and 1 years starts on the day
  that the lengths of those cycles add up to, and is a leap year exactly when it closes a
  four-year cycle that does not close a century, or closes the 400 years.
\<close>

lemma year_cycle_day:
  fixes a c q k :: int
  assumes "0 \<le> c" "c \<le> 3" "0 \<le> q" "q \<le> 24" "0 \<le> k" "k \<le> 3"
  shows "DayFromYear (1601 + 400 * a + 100 * c + 4 * q + k)
         = 146097 * a + 36524 * c + 1461 * q + 365 * k - 134774"
proof -
  let ?y = "1601 + 400 * a + 100 * c + 4 * q + k"
  have d4: "(?y - 1969) div 4 = 100 * a + 25 * c + q - 92"
    using divmod_unique(1) [of k 4 "100 * a + 25 * c + q - 92"] assms
    by (simp add: algebra_simps)
  have d100: "(?y - 1901) div 100 = 4 * a + c - 3"
    using divmod_unique(1) [of "4 * q + k" 100 "4 * a + c - 3"] assms
    by (simp add: algebra_simps)
  have d400: "(?y - 1601) div 400 = a"
    using divmod_unique(1) [of "100 * c + 4 * q + k" 400 a] assms
    by (simp add: algebra_simps)
  show ?thesis
    unfolding DayFromYear_def d4 d100 d400 by simp
qed

lemma year_cycle_days:
  fixes a c q k :: int
  assumes "0 \<le> c" "c \<le> 3" "0 \<le> q" "q \<le> 24" "0 \<le> k" "k \<le> 3"
  shows "DaysInYear (1601 + 400 * a + 100 * c + 4 * q + k)
         = (if k = 3 \<and> (q \<noteq> 24 \<or> c = 3) then 366 else 365)"
proof -
  let ?y = "1601 + 400 * a + 100 * c + 4 * q + k"
  have m4: "?y mod 4 = (if k = 3 then 0 else k + 1)"
  proof (cases "k = 3")
    case True
    then show ?thesis
      using divmod_unique(2) [of 0 4 "100 * a + 25 * c + q + 401"]
      by (simp add: algebra_simps)
  next
    case False
    with assms have "k + 1 < 4" by arith
    then show ?thesis
      using False assms divmod_unique(2) [of "k + 1" 4 "100 * a + 25 * c + q + 400"]
      by (simp add: algebra_simps)
  qed
  have m100: "?y mod 100 = (if q = 24 \<and> k = 3 then 0 else 4 * q + k + 1)"
  proof (cases "q = 24 \<and> k = 3")
    case True
    then show ?thesis
      using divmod_unique(2) [of 0 100 "4 * a + c + 17"]
      by (simp add: algebra_simps)
  next
    case False
    with assms have "4 * q + k + 1 < 100" by arith
    then show ?thesis
      using False assms divmod_unique(2) [of "4 * q + k + 1" 100 "4 * a + c + 16"]
      by (simp add: algebra_simps)
  qed
  have m400: "?y mod 400 = (if c = 3 \<and> q = 24 \<and> k = 3 then 0 else 100 * c + 4 * q + k + 1)"
  proof (cases "c = 3 \<and> q = 24 \<and> k = 3")
    case True
    then show ?thesis
      using divmod_unique(2) [of 0 400 "a + 5"]
      by (simp add: algebra_simps)
  next
    case False
    with assms have "100 * c + 4 * q + k + 1 < 400" by arith
    then show ?thesis
      using False assms divmod_unique(2) [of "100 * c + 4 * q + k + 1" 400 "a + 4"]
      by (simp add: algebra_simps)
  qed
  show ?thesis
    unfolding DaysInYear_def m4 m100 m400 using assms by auto
qed

text \<open>The cycles that \<open>YearFromDay\<close> counts, and the day of the year that is left over.\<close>

lemma YearFromDay_decomp:
  obtains a c q k rem :: int where
    "YearFromDay d = 1601 + 400 * a + 100 * c + 4 * q + k"
    "0 \<le> c" "c \<le> 3" "0 \<le> q" "q \<le> 24" "0 \<le> k" "k \<le> 3"
    "d = 146097 * a + 36524 * c + 1461 * q + 365 * k + rem - 134774"
    "0 \<le> rem" "rem < (if k = 3 \<and> (q \<noteq> 24 \<or> c = 3) then 366 else 365)"
proof -
  define n where "n = d + 134774"
  define a where "a = n div 146097"
  define r where "r = n mod 146097"
  define e where "e = r div 36524"
  define f where "f = r mod 36524"
  define c where "c = min 3 e"
  define r2 where "r2 = r - 36524 * c"
  define q where "q = r2 div 1461"
  define r3 where "r3 = r2 mod 1461"
  define g where "g = r3 div 365"
  define h where "h = r3 mod 365"
  define k where "k = min 3 g"
  define rem where "rem = r3 - 365 * k"
  have n: "n = 146097 * a + r" and r: "0 \<le> r" "r < 146097"
    by (simp_all add: a_def r_def)
  have e: "r = 36524 * e + f" "0 \<le> f" "f < 36524"
    by (simp_all add: e_def f_def)
  have e_bounds: "0 \<le> e" "e \<le> 4"
  proof -
    from e r have "36524 * e > 36524 * (-1)" "36524 * e < 36524 * 5" by linarith+
    then show "0 \<le> e" "e \<le> 4" by simp_all
  qed
  then have c: "0 \<le> c" "c \<le> 3" by (simp_all add: c_def)
  have r2: "0 \<le> r2" "r2 \<le> 36524" "c < 3 \<Longrightarrow> r2 < 36524"
  proof -
    consider "e \<le> 3" "c = e" | "e = 4" "c = 3"
      using e_bounds by (cases "e \<le> 3") (auto simp add: c_def)
    then show "0 \<le> r2" "r2 \<le> 36524" "c < 3 \<Longrightarrow> r2 < 36524"
      using e r by (cases; simp add: r2_def)+
  qed
  have q: "r2 = 1461 * q + r3" "0 \<le> r3" "r3 < 1461"
    by (simp_all add: q_def r3_def)
  have q_bounds: "0 \<le> q" "q \<le> 24"
  proof -
    from q r2 have "1461 * q > 1461 * (-1)" "1461 * q < 1461 * 25" by linarith+
    then show "0 \<le> q" "q \<le> 24" by simp_all
  qed
  have g: "r3 = 365 * g + h" "0 \<le> h" "h < 365"
    by (simp_all add: g_def h_def)
  have g_bounds: "0 \<le> g" "g \<le> 4"
  proof -
    from g q have "365 * g > 365 * (-1)" "365 * g < 365 * 5" by linarith+
    then show "0 \<le> g" "g \<le> 4" by simp_all
  qed
  then have k: "0 \<le> k" "k \<le> 3" by (simp_all add: k_def)
  have rem: "0 \<le> rem" "rem \<le> 365" "k < 3 \<Longrightarrow> rem < 365"
  proof -
    consider "g \<le> 3" "k = g" | "g = 4" "k = 3"
      using g_bounds by (cases "g \<le> 3") (auto simp add: k_def)
    then show "0 \<le> rem" "rem \<le> 365" "k < 3 \<Longrightarrow> rem < 365"
      using g q by (cases; simp add: rem_def)+
  qed
  have leap: "k = 3 \<and> (q \<noteq> 24 \<or> c = 3)" if "rem = 365"
  proof -
    from that rem k have k3: "k = 3" by (cases "k < 3") auto
    with that have r3: "r3 = 1460" by (simp add: rem_def)
    have "c = 3" if "q = 24"
    proof -
      from that r3 q have "r2 = 36524" by simp
      with r2(3) c show ?thesis by (cases "c < 3") auto
    qed
    with k3 show ?thesis by blast
  qed
  have y: "YearFromDay d = 1601 + 400 * a + 100 * c + 4 * q + k"
    unfolding YearFromDay_def Let_def k_def g_def r3_def q_def r2_def c_def e_def r_def a_def n_def
    by (rule refl)
  have dd: "d = 146097 * a + 36524 * c + 1461 * q + 365 * k + rem - 134774"
    using n q by (simp add: n_def r2_def rem_def)
  have "rem < (if k = 3 \<and> (q \<noteq> 24 \<or> c = 3) then 366 else 365)"
    using rem leap by (cases "rem = 365") auto
  with y c q_bounds k dd rem show thesis
    using that by blast
qed

subsection \<open>Decimal digits\<close>

lemma below_10_cases:
  fixes m :: nat
  assumes "m < 10"
  shows "m = 0 \<or> m = 1 \<or> m = 2 \<or> m = 3 \<or> m = 4 \<or> m = 5 \<or> m = 6 \<or> m = 7 \<or> m = 8 \<or> m = 9"
  using assms by arith

lemma digitChar_props:
  "isDigit (digitChar n)" "digitVal (digitChar n) = n mod 10"
  "digitChar n \<noteq> CHR ''+''" "digitChar n \<noteq> CHR ''-''"
  "digitChar n \<noteq> CHR ''T''" "digitChar n \<noteq> CHR '' ''"
  using below_10_cases [of "n mod 10"]
  by (auto simp add: digitChar_def isDigit_def digitVal_def)

lemma readDigits_pad: "readDigits w (pad w n @ r) = Some (n mod 10 ^ w, r)"
proof (induction w arbitrary: n)
  case 0
  show ?case by simp
next
  case (Suc w)
  have "n mod (10 ^ w * 10) = 10 ^ w * (n div 10 ^ w mod 10) + n mod 10 ^ w"
    by (rule mod_mult2_eq)
  then have "n div 10 ^ w mod 10 * 10 ^ w + n mod 10 ^ w = n mod 10 ^ Suc w"
    by (simp add: mult.commute)
  with Suc show ?case by (simp add: digitChar_props)
qed

lemma pad_2: "pad 2 n = [digitChar (n div 10), digitChar n]"
  by (simp add: numeral_2_eq_2)

lemma pad_3: "pad 3 n = [digitChar (n div 100), digitChar (n div 10), digitChar n]"
  by (simp add: numeral_3_eq_3)

lemma pad_4:
  "pad 4 n = [digitChar (n div 1000), digitChar (n div 100), digitChar (n div 10), digitChar n]"
proof -
  have "(4::nat) = Suc (Suc (Suc (Suc 0)))" by simp
  then have "pad 4 n = pad (Suc (Suc (Suc (Suc 0)))) n" by (rule arg_cong)
  then show ?thesis by simp
qed

lemma pad_6:
  "pad 6 n = [digitChar (n div 100000), digitChar (n div 10000), digitChar (n div 1000),
              digitChar (n div 100), digitChar (n div 10), digitChar n]"
proof -
  have "(6::nat) = Suc (Suc (Suc (Suc (Suc (Suc 0)))))" by simp
  then have "pad 6 n = pad (Suc (Suc (Suc (Suc (Suc (Suc 0)))))) n" by (rule arg_cong)
  then show ?thesis by simp
qed

subsection \<open>Calendar fields\<close>

lemma YearFromDay_bounds:
  "DayFromYear (YearFromDay d) \<le> d"
  "d - DayFromYear (YearFromDay d) < DaysInYear (YearFromDay d)"
proof -
  obtain a c q k rem :: int where f:
    "YearFromDay d = 1601 + 400 * a + 100 * c + 4 * q + k"
    "0 \<le> c" "c \<le> 3" "0 \<le> q" "q \<le> 24" "0 \<le> k" "k \<le> 3"
    "d = 146097 * a + 36524 * c + 1461 * q + 365 * k + rem - 134774"
    "0 \<le> rem" "rem < (if k = 3 \<and> (q \<noteq> 24 \<or> c = 3) then 366 else 365)"
    by (rule YearFromDay_decomp)
  have 1: "DayFromYear (YearFromDay d) = d - rem"
    using year_cycle_day [OF f(2-7), of a] f(1,8) by simp
  have 2: "DaysInYear (YearFromDay d) = (if k = 3 \<and> (q \<noteq> 24 \<or> c = 3) then 366 else 365)"
    using year_cycle_days [OF f(2-7), of a] f(1) by simp
  show "DayFromYear (YearFromDay d) \<le> d" using 1 f(9) by simp
  show "d - DayFromYear (YearFromDay d) < DaysInYear (YearFromDay d)"
    unfolding 1 2 using f(10) by simp
qed

lemma DaysInYear_cases: "DaysInYear y = 365 \<or> DaysInYear y = 366"
  by (simp add: DaysInYear_def)

text \<open>
  Every year is such a sum of cycles, so each year starts where the year before it ends, and
  \<open>YearFromTime\<close> is the year that ECMA-262 defines.
\<close>

lemma year_cycles:
  obtains a c q k :: int where
    "y = 1601 + 400 * a + 100 * c + 4 * q + k"
    "0 \<le> c" "c \<le> 3" "0 \<le> q" "q \<le> 24" "0 \<le> k" "k \<le> 3"
proof -
  define z where "z = y - 1601"
  define a where "a = z div 400"
  define r where "r = z mod 400"
  define c where "c = r div 100"
  define r' where "r' = r mod 100"
  define q where "q = r' div 4"
  define k where "k = r' mod 4"
  have z: "z = 400 * a + r" "0 \<le> r" "r < 400"
    by (simp_all add: a_def r_def)
  have r: "r = 100 * c + r'" "0 \<le> r'" "r' < 100"
    by (simp_all add: c_def r'_def)
  have r': "r' = 4 * q + k" "0 \<le> k" "k < 4"
    by (simp_all add: q_def k_def)
  from z r have c: "0 \<le> c" "c \<le> 3" by arith+
  from r r' have q: "0 \<le> q" "q \<le> 24" by arith+
  from r' have k: "0 \<le> k" "k \<le> 3" by arith+
  have "y = 1601 + 400 * a + 100 * c + 4 * q + k"
    using z(1) r(1) r'(1) by (simp add: z_def)
  with c q k show thesis using that by blast
qed

lemma DayFromYear_Suc: "DayFromYear (y + 1) = DayFromYear y + DaysInYear y"
proof -
  obtain a c q k :: int where f:
    "y = 1601 + 400 * a + 100 * c + 4 * q + k"
    "0 \<le> c" "c \<le> 3" "0 \<le> q" "q \<le> 24" "0 \<le> k" "k \<le> 3"
    by (rule year_cycles)
  note day = year_cycle_day [OF f(2-7), of a] and days = year_cycle_days [OF f(2-7), of a]
  consider (year) "k < 3" | (four) "k = 3" "q < 24" | (century) "k = 3" "q = 24" "c < 3"
    | (cycle) "k = 3" "q = 24" "c = 3"
    using f by arith
  then show ?thesis
  proof cases
    case year
    have "y + 1 = 1601 + 400 * a + 100 * c + 4 * q + (k + 1)" using f(1) by simp
    moreover have "DayFromYear (1601 + 400 * a + 100 * c + 4 * q + (k + 1))
        = 146097 * a + 36524 * c + 1461 * q + 365 * (k + 1) - 134774"
      using f year by (intro year_cycle_day) simp_all
    ultimately show ?thesis using day days year f(1) by simp
  next
    case four
    have "y + 1 = 1601 + 400 * a + 100 * c + 4 * (q + 1) + 0" using f(1) four by simp
    moreover have "DayFromYear (1601 + 400 * a + 100 * c + 4 * (q + 1) + 0)
        = 146097 * a + 36524 * c + 1461 * (q + 1) + 365 * 0 - 134774"
      using f four by (intro year_cycle_day) simp_all
    ultimately show ?thesis using day days four f(1) by simp
  next
    case century
    have "y + 1 = 1601 + 400 * a + 100 * (c + 1) + 4 * 0 + 0" using f(1) century by simp
    moreover have "DayFromYear (1601 + 400 * a + 100 * (c + 1) + 4 * 0 + 0)
        = 146097 * a + 36524 * (c + 1) + 1461 * 0 + 365 * 0 - 134774"
      using f century by (intro year_cycle_day) simp_all
    ultimately show ?thesis using day days century f(1) by simp
  next
    case cycle
    have "y + 1 = 1601 + 400 * (a + 1) + 100 * 0 + 4 * 0 + 0" using f(1) cycle by simp
    moreover have "DayFromYear (1601 + 400 * (a + 1) + 100 * 0 + 4 * 0 + 0)
        = 146097 * (a + 1) + 36524 * 0 + 1461 * 0 + 365 * 0 - 134774"
      by (intro year_cycle_day) simp_all
    ultimately show ?thesis using day days cycle f(1) by simp
  qed
qed

lemma DayFromYear_mono: "y \<le> y' \<Longrightarrow> DayFromYear y \<le> DayFromYear y'"
proof (induction y' rule: int_ge_induct)
  case base
  show ?case by simp
next
  case (step i)
  then show ?case
    using DayFromYear_Suc [of i] DaysInYear_cases [of i] by arith
qed

lemma YearFromDay_largest: "DayFromYear y \<le> d \<longleftrightarrow> y \<le> YearFromDay d"
proof
  assume "y \<le> YearFromDay d"
  then have "DayFromYear y \<le> DayFromYear (YearFromDay d)" by (rule DayFromYear_mono)
  with YearFromDay_bounds(1) [of d] show "DayFromYear y \<le> d" by simp
next
  assume le: "DayFromYear y \<le> d"
  show "y \<le> YearFromDay d"
  proof (rule ccontr)
    assume "\<not> y \<le> YearFromDay d"
    then have "YearFromDay d + 1 \<le> y" by simp
    then have "DayFromYear (YearFromDay d + 1) \<le> DayFromYear y" by (rule DayFromYear_mono)
    with le YearFromDay_bounds(2) [of d] show False
      by (simp add: DayFromYear_Suc)
  qed
qed

lemma YearFromTime_largest: "TimeFromYear y \<le> t \<longleftrightarrow> y \<le> YearFromTime t"
proof -
  have "TimeFromYear y \<le> t \<longleftrightarrow> DayFromYear y \<le> Day t"
  proof -
    have "x * 86400000 \<le> t \<longleftrightarrow> x \<le> t div 86400000" for x :: int
      by arith
    then have "DayFromYear y * 86400000 \<le> t \<longleftrightarrow> DayFromYear y \<le> t div 86400000" .
    then show ?thesis
      by (simp add: TimeFromYear_def Day_def msPerDay_def mult.commute)
  qed
  then show ?thesis
    by (simp add: YearFromDay_largest YearFromTime_def)
qed

lemma four_digit_year:
  "0 \<le> YearFromTime t \<and> YearFromTime t \<le> 9999
   \<longleftrightarrow> - 62167219200000 \<le> t \<and> t < 253402300800000"
proof -
  have "TimeFromYear 0 = - 62167219200000" "TimeFromYear 10000 = 253402300800000"
    by (simp_all add: TimeFromYear_def DayFromYear_def msPerDay_def)
  with YearFromTime_largest [of 0 t] YearFromTime_largest [of 10000 t]
  show ?thesis by auto
qed

lemma DayWithinYear_bounds:
  "0 \<le> DayWithinYear t" "DayWithinYear t < 365 + InLeapYear t"
  using YearFromDay_bounds [of "Day t"] DaysInYear_cases [of "YearFromTime t"]
  by (auto simp add: DayWithinYear_def YearFromTime_def InLeapYear_def)

lemma InLeapYear_LeapDays: "InLeapYear t = LeapDays (YearFromTime t)"
  by (simp add: InLeapYear_def LeapDays_def)

lemma LeapDays_cases: "LeapDays y = 0 \<or> LeapDays y = 1"
  by (simp add: LeapDays_def)

lemma MonthFromTime_bounds: "0 \<le> MonthFromTime t" "MonthFromTime t \<le> 11"
  by (simp_all add: MonthFromTime_def Let_def)

lemma DateFromTime_bounds:
  "1 \<le> DateFromTime t"
  "DateFromTime t \<le> DaysInMonth (YearFromTime t) (MonthFromTime t)"
  using DayWithinYear_bounds [of t] LeapDays_cases [of "YearFromTime t"]
  unfolding DateFromTime_def MonthFromTime_def DaysInMonth_def DaysBeforeMonth_def Let_def
    InLeapYear_LeapDays
  by auto

lemma MakeDay_fields:
  "MakeDay (YearFromTime t) (MonthFromTime t) (DateFromTime t) = Day t"
  using DayWithinYear_bounds [of t] LeapDays_cases [of "YearFromTime t"]
  unfolding MakeDay_def DateFromTime_def MonthFromTime_def DaysBeforeMonth_def Let_def
    InLeapYear_LeapDays DayWithinYear_def
  by auto

lemma time_fields_bounds:
  "0 \<le> HourFromTime t" "HourFromTime t \<le> 23"
  "0 \<le> MinFromTime t" "MinFromTime t \<le> 59"
  "0 \<le> SecFromTime t" "SecFromTime t \<le> 59"
  "0 \<le> msFromTime t" "msFromTime t \<le> 999"
  by (simp_all add: HourFromTime_def MinFromTime_def SecFromTime_def msFromTime_def msPerSecond_def)

lemma MakeTime_fields:
  "MakeTime (HourFromTime t) (MinFromTime t) (SecFromTime t) (msFromTime t) = TimeWithinDay t"
proof -
  have s: "t mod 60000 = 1000 * (t div 1000 mod 60) + t mod 1000"
    using zmod_zmult2_eq [of 60 t 1000] by simp
  have m: "t mod 3600000 = 60000 * (t div 60000 mod 60) + t mod 60000"
    using zmod_zmult2_eq [of 60 t 60000] by simp
  have h: "t mod 86400000 = 3600000 * (t div 3600000 mod 24) + t mod 3600000"
    using zmod_zmult2_eq [of 24 t 3600000] by simp
  have "MakeTime (HourFromTime t) (MinFromTime t) (SecFromTime t) (msFromTime t)
        = (t div 3600000 mod 24) * 3600000 + (t div 60000 mod 60) * 60000
          + (t div 1000 mod 60) * 1000 + t mod 1000"
    unfolding MakeTime_def HourFromTime_def MinFromTime_def SecFromTime_def msFromTime_def
      msPerHour_def msPerMinute_def msPerSecond_def ..
  also have "\<dots> = t mod 86400000"
    unfolding h m s by (simp only: mult.commute add.assoc)
  finally show ?thesis
    unfolding TimeWithinDay_def msPerDay_def .
qed

lemma MakeDate_fields:
  "MakeDate (MakeDay (YearFromTime t) (MonthFromTime t) (DateFromTime t))
            (MakeTime (HourFromTime t) (MinFromTime t) (SecFromTime t) (msFromTime t)) = t"
  by (simp add: MakeDay_fields MakeTime_fields MakeDate_def Day_def TimeWithinDay_def)

lemma YearFromTime_range:
  assumes "inTimeRange t"
  shows "- 999999 \<le> YearFromTime t" "YearFromTime t \<le> 999999"
proof -
  obtain a c q k rem :: int where f:
    "YearFromDay (Day t) = 1601 + 400 * a + 100 * c + 4 * q + k"
    "0 \<le> c" "c \<le> 3" "0 \<le> q" "q \<le> 24" "0 \<le> k" "k \<le> 3"
    "Day t = 146097 * a + 36524 * c + 1461 * q + 365 * k + rem - 134774"
    "0 \<le> rem" "rem < (if k = 3 \<and> (q \<noteq> 24 \<or> c = 3) then 366 else 365)"
    by (rule YearFromDay_decomp)
  from assms have "- 100000000 \<le> Day t" "Day t \<le> 100000000"
    unfolding inTimeRange_def maxTime_def Day_def msPerDay_def by arith+
  with f have "- 2000 \<le> a" "a \<le> 2000"
    by (auto split: if_splits)
  with f show "- 999999 \<le> YearFromTime t" "YearFromTime t \<le> 999999"
    unfolding YearFromTime_def by simp_all
qed

subsection \<open>Reading back what \<open>toISOString\<close> writes\<close>

lemma readDigits_pad_int:
  assumes "0 \<le> x" "x < 10 ^ w"
  shows "readDigits w (pad w (nat x) @ r) = Some (nat x, r)"
proof -
  from assms have "nat x < 10 ^ w"
    by (simp add: nat_less_iff)
  then show ?thesis by (simp add: readDigits_pad)
qed

lemma pad_4_head: "\<exists>c cs. pad 4 n = c # cs \<and> c \<noteq> CHR ''+'' \<and> c \<noteq> CHR ''-''"
  by (simp add: pad_4 digitChar_props)

lemma readYear_yearString:
  assumes "- 999999 \<le> y" "y \<le> 999999"
  shows "readYear (yearString y @ r) = Some (y, r)"
proof (cases "0 \<le> y \<and> y \<le> 9999")
  case True
  obtain c cs where p: "pad 4 (nat y) = c # cs" "c \<noteq> CHR ''+''" "c \<noteq> CHR ''-''"
    using pad_4_head by blast
  from True have "readDigits 4 (pad 4 (nat y) @ r) = Some (nat y, r)"
    by (intro readDigits_pad_int) simp_all
  with p True show ?thesis
    by (simp add: readYear_def yearString_def)
next
  case False
  show ?thesis
  proof (cases "y < 0")
    case True
    with assms have "readDigits 6 (pad 6 (nat (- y)) @ r) = Some (nat (- y), r)"
      by (intro readDigits_pad_int) simp_all
    with True show ?thesis
      by (simp add: readYear_def yearString_def)
  next
    case pos: False
    with assms have "readDigits 6 (pad 6 (nat y) @ r) = Some (nat y, r)"
      by (intro readDigits_pad_int) simp_all
    with pos False show ?thesis
      by (simp add: readYear_def yearString_def)
  qed
qed

lemma parseDateTime_ecmaToISOString:
  assumes "inTimeRange t"
  shows "parseDateTime (ecmaToISOString t) = Some t"
proof -
  note y = readYear_yearString [OF YearFromTime_range [OF assms]]
  have mo: "readDigits 2 (pad 2 (nat (MonthFromTime t + 1)) @ r) = Some (nat (MonthFromTime t + 1), r)" for r
    using MonthFromTime_bounds [of t] by (intro readDigits_pad_int) simp_all
  have le31: "DaysInMonth y m \<le> 31" for y m
    using LeapDays_cases [of y] by (auto simp add: DaysInMonth_def DaysBeforeMonth_def)
  have da: "readDigits 2 (pad 2 (nat (DateFromTime t)) @ r) = Some (nat (DateFromTime t), r)" for r
    using DateFromTime_bounds [of t] le31 [of "YearFromTime t" "MonthFromTime t"]
    by (intro readDigits_pad_int) simp_all
  have ho: "readDigits 2 (pad 2 (nat (HourFromTime t)) @ r) = Some (nat (HourFromTime t), r)" for r
    using time_fields_bounds [of t] by (intro readDigits_pad_int) simp_all
  have mi: "readDigits 2 (pad 2 (nat (MinFromTime t)) @ r) = Some (nat (MinFromTime t), r)" for r
    using time_fields_bounds [of t] by (intro readDigits_pad_int) simp_all
  have se: "readDigits 2 (pad 2 (nat (SecFromTime t)) @ r) = Some (nat (SecFromTime t), r)" for r
    using time_fields_bounds [of t] by (intro readDigits_pad_int) simp_all
  have ms: "readDigits 3 (pad 3 (nat (msFromTime t)) @ r) = Some (nat (msFromTime t), r)" for r
    using time_fields_bounds [of t] by (intro readDigits_pad_int) simp_all
  have "parseDateTime (ecmaToISOString t) =
        (if 1 \<le> nat (MonthFromTime t + 1) \<and> nat (MonthFromTime t + 1) \<le> 12
            \<and> 1 \<le> nat (DateFromTime t)
            \<and> int (nat (DateFromTime t)) \<le> DaysInMonth (YearFromTime t) (int (nat (MonthFromTime t + 1)) - 1)
            \<and> nat (HourFromTime t) \<le> 23 \<and> nat (MinFromTime t) \<le> 59 \<and> nat (SecFromTime t) \<le> 59
         then Some (MakeDate (MakeDay (YearFromTime t) (int (nat (MonthFromTime t + 1)) - 1) (int (nat (DateFromTime t))))
                       (MakeTime (int (nat (HourFromTime t))) (int (nat (MinFromTime t)))
                                 (int (nat (SecFromTime t))) (int (nat (msFromTime t)))))
         else None)"
    unfolding parseDateTime_def ecmaToISOString_def isoDate_def isoTime_def
    by (simp only: y mo da ho mi se ms bind.simps append.simps append_assoc expect.simps
        prod.case if_True simp_thms)
  also have "\<dots> = Some t"
  proof -
    have "nat (MinFromTime t) \<le> 59" "nat (HourFromTime t) \<le> 23" "nat (SecFromTime t) \<le> 59"
      "1 \<le> nat (DateFromTime t)" "nat (MonthFromTime t + 1) \<le> 12" "1 \<le> nat (MonthFromTime t + 1)"
      using MonthFromTime_bounds [of t] DateFromTime_bounds [of t] time_fields_bounds [of t]
      by arith+
    then show ?thesis
      using MonthFromTime_bounds [of t] DateFromTime_bounds [of t] time_fields_bounds [of t]
      by (simp add: MakeDate_fields)
  qed
  finally show ?thesis .
qed

section \<open>Properties of the module\<close>

subsection \<open>Strings\<close>

lemma indexOf_absent: "indexOf s c \<ge> -1 \<and> (indexOf s c = -1 \<longleftrightarrow> c \<notin> set s)"
  by (induction s) (auto simp add: Let_def)

lemma indexOf_eq: "(indexOf s c = -1) = (c \<notin> set s)"
  using indexOf_absent by blast

lemma split_nonempty: "split s c \<noteq> []"
  by (induction s) (auto split: list.splits)

lemma length_split: "length (split s c) = count_list s c + 1"
  by (induction s) (auto split: list.splits simp add: split_nonempty)

lemma split_absent: "c \<notin> set s \<Longrightarrow> split s c = [s]"
  by (induction s) auto

lemma split_once: "c \<notin> set a \<Longrightarrow> split (a @ c # b) c = a # split b c"
  by (induction a) auto

lemma replaceAll_Cons: "replaceAll c d (x # xs) = (if x = c then d else x) # replaceAll c d xs"
  by (simp add: replaceAll_def)

lemma replaceAll_append: "replaceAll c d (a @ b) = replaceAll c d a @ replaceAll c d b"
  by (simp add: replaceAll_def)

lemma replaceAll_absent: "c \<notin> set s \<Longrightarrow> replaceAll c d s = s"
  by (induction s) (auto simp add: replaceAll_def)

lemma join_split: "join (split s c) d = replaceAll c d s"
proof (induction s)
  case Nil
  show ?case by (simp add: replaceAll_def)
next
  case (Cons x xs)
  obtain p ps where sp: "split xs c = p # ps"
    using split_nonempty [of xs c] by (cases "split xs c") auto
  with Cons show ?case
    by (cases ps) (auto simp add: replaceAll_def)
qed

lemma count_list_absent: "c \<notin> set s \<Longrightarrow> count_list s c = 0"
  by (induction s) auto

subsection \<open>The module on any host\<close>

lemma formatted_trace:
  assumes "s \<noteq> []"
  shows "fst (rfc3339ToDate P s)
         = [if CHR '' '' \<in> set s \<and> CHR ''T'' \<notin> set s then replaceAll CHR '' '' CHR ''T'' s else s]"
  using assms by (simp add: rfc3339ToDate_def Let_def indexOf_eq join_split)

lemma empty_trace: "fst (rfc3339ToDate P []) = []"
  by (simp add: rfc3339ToDate_def)

lemma rfc3339ToDate_result:
  assumes "s \<noteq> []" "fst (rfc3339ToDate P s) = [f]"
  shows "snd (rfc3339ToDate P s)
         = (case TimeClip (parse P f) of
              None \<Rightarrow> Fail \<lparr>type = dateInvalidFormat,
                            message = ''The provided date string '' @ [dquote] @ s @ [dquote] @ '' is invalid.''\<rparr>
            | Some t \<Rightarrow> Succeed (Date (Some t)))"
  using assms by (auto simp add: rfc3339ToDate_def Let_def newDate_def isNaN_def split: option.splits)

lemma rfc3339ToDate_Succeed:
  assumes "snd (rfc3339ToDate P s) = Succeed d"
  shows "\<exists>t. d = Date (Some t) \<and> inTimeRange t"
proof -
  from assms have "s \<noteq> []" by (auto simp add: rfc3339ToDate_def)
  moreover obtain f where "fst (rfc3339ToDate P s) = [f]"
    using \<open>s \<noteq> []\<close> formatted_trace by blast
  ultimately have "snd (rfc3339ToDate P s)
      = (case TimeClip (parse P f) of
           None \<Rightarrow> Fail \<lparr>type = dateInvalidFormat,
                         message = ''The provided date string '' @ [dquote] @ s @ [dquote] @ '' is invalid.''\<rparr>
         | Some t \<Rightarrow> Succeed (Date (Some t)))"
    by (rule rfc3339ToDate_result)
  with assms obtain t where t: "TimeClip (parse P f) = Some t" "d = Date (Some t)"
    by (auto split: option.splits)
  from t(1) have "inTimeRange t"
    by (cases "parse P f") (auto split: if_splits)
  with t show ?thesis by blast
qed

lemma parts_by_count:
  "dateToRFC3339Parts P (Date (Some t)) =
     (if count_list (toISOString P t) CHR ''T'' = 1
      then Succeed (split (toISOString P t) CHR ''T'')
      else if count_list (toISOString P t) CHR '' '' = 1
      then Succeed (split (toISOString P t) CHR '' '')
      else Thrown ''Expected date to ISO string to contain a 'T' or ' ' separator.'')"
  by (simp add: dateToRFC3339Parts_def Let_def length_split)

subsection \<open>The module on the ECMAScript host\<close>

lemma pad_digits: "c \<in> set (pad w n) \<Longrightarrow> isDigit c"
  by (induction w arbitrary: n) (auto simp add: digitChar_props)

lemma isDigit_not_separator: "isDigit c \<Longrightarrow> c \<noteq> CHR ''T'' \<and> c \<noteq> CHR '' ''"
  by (auto simp add: isDigit_def)

lemma pad_no_separator: "CHR ''T'' \<notin> set (pad w n)" "CHR '' '' \<notin> set (pad w n)"
  using pad_digits isDigit_not_separator by blast+

lemma yearString_no_separator:
  "CHR ''T'' \<notin> set (yearString y)" "CHR '' '' \<notin> set (yearString y)"
  by (simp_all add: yearString_def pad_no_separator)

lemma isoDate_no_separator: "CHR ''T'' \<notin> set (isoDate t)" "CHR '' '' \<notin> set (isoDate t)"
  by (simp_all add: isoDate_def pad_no_separator yearString_no_separator)

lemma isoTime_no_separator: "CHR ''T'' \<notin> set (isoTime t)" "CHR '' '' \<notin> set (isoTime t)"
  by (simp_all add: isoTime_def pad_no_separator)

lemma count_T_ecmaToISOString: "count_list (ecmaToISOString t) CHR ''T'' = 1"
  by (simp add: ecmaToISOString_def count_list_absent isoDate_no_separator isoTime_no_separator)

lemma split_ecmaToISOString: "split (ecmaToISOString t) CHR ''T'' = [isoDate t, isoTime t]"
  by (simp add: ecmaToISOString_def split_once split_absent isoDate_no_separator isoTime_no_separator)

lemma parts_ecma:
  "dateToRFC3339Parts (ECMAScript other) (Date (Some t)) = Succeed [isoDate t, isoTime t]"
  by (simp add: dateToRFC3339Parts_def ECMAScript_def split_ecmaToISOString)

lemma dateToRFC3339_ecma:
  "dateToRFC3339 (ECMAScript other) (Date (Some t)) = Succeed (isoDate t @ '' '' @ isoTime t)"
  by (simp add: dateToRFC3339_def parts_ecma)

lemma canonical_rewritten:
  "replaceAll CHR '' '' CHR ''T'' (isoDate t @ CHR '' '' # isoTime t) = ecmaToISOString t"
  by (simp add: replaceAll_append replaceAll_Cons replaceAll_absent isoDate_no_separator
      isoTime_no_separator ecmaToISOString_def)

lemma rfc3339ToDate_canonical:
  assumes "inTimeRange t"
  shows "rfc3339ToDate (ECMAScript other) (isoDate t @ '' '' @ isoTime t)
         = ([ecmaToISOString t], Succeed (Date (Some t)))"
proof -
  let ?s = "isoDate t @ '' '' @ isoTime t"
  have ne: "?s \<noteq> []" by simp
  have "CHR '' '' \<in> set ?s" "CHR ''T'' \<notin> set ?s"
    by (simp_all add: isoDate_no_separator isoTime_no_separator)
  then have tr: "fst (rfc3339ToDate (ECMAScript other) ?s) = [ecmaToISOString t]"
    using formatted_trace [OF ne, of "ECMAScript other"] by (simp add: canonical_rewritten)
  have "TimeClip (parse (ECMAScript other) (ecmaToISOString t)) = Some t"
    using assms by (simp add: ECMAScript_def ecmaParse_def parseDateTime_ecmaToISOString)
  then have "snd (rfc3339ToDate (ECMAScript other) ?s) = Succeed (Date (Some t))"
    using rfc3339ToDate_result [OF ne tr] by simp
  with tr show ?thesis by (simp add: prod_eq_iff)
qed

lemma matches_date_tail:
  "matchesTemplate ''-MM-DD HH:MM:SS.sssZ''
     (''-'' @ pad 2 m @ ''-'' @ pad 2 d @ '' '' @ pad 2 h @ '':'' @ pad 2 mi @ '':'' @ pad 2 se
      @ ''.'' @ pad 3 ms @ ''Z'')"
  by (simp add: pad_2 pad_3 digitChar_props)

lemma matches_canonical:
  assumes "0 \<le> YearFromTime t" "YearFromTime t \<le> 9999"
  shows "matchesTemplate ''YYYY-MM-DD HH:MM:SS.sssZ'' (isoDate t @ '' '' @ isoTime t)"
  using assms matches_date_tail
  by (simp add: isoDate_def isoTime_def yearString_def pad_4 digitChar_props)

lemma matches_expanded:
  assumes "\<not> (0 \<le> YearFromTime t \<and> YearFromTime t \<le> 9999)"
  shows "isoDate t @ '' '' @ isoTime t
           = (if YearFromTime t < 0 then CHR ''-'' else CHR ''+'') # tl (isoDate t @ '' '' @ isoTime t)
         \<and> matchesTemplate ''YYYYYY-MM-DD HH:MM:SS.sssZ'' (tl (isoDate t @ '' '' @ isoTime t))"
  using assms matches_date_tail
  by (simp add: isoDate_def isoTime_def yearString_def pad_6 digitChar_props)

text \<open>
  The shape of the result: \<^verbatim>\<open>YYYY-MM-DD HH:MM:SS.sssZ\<close> for a date in the years 0 to 9999,
  and a sign with six digits of year for any other date.
\<close>

lemma dateToRFC3339_shape:
  "dateToRFC3339 (ECMAScript other) (Date (Some t)) = Succeed (isoDate t @ '' '' @ isoTime t)
   \<and> (if - 62167219200000 \<le> t \<and> t < 253402300800000
       then matchesTemplate ''YYYY-MM-DD HH:MM:SS.sssZ'' (isoDate t @ '' '' @ isoTime t)
       else (\<exists>sign rest. isoDate t @ '' '' @ isoTime t = sign # rest
               \<and> (sign = CHR ''+'' \<or> sign = CHR ''-'')
               \<and> matchesTemplate ''YYYYYY-MM-DD HH:MM:SS.sssZ'' rest))"
proof (intro conjI)
  show "dateToRFC3339 (ECMAScript other) (Date (Some t)) = Succeed (isoDate t @ '' '' @ isoTime t)"
    by (rule dateToRFC3339_ecma)
next
  let ?s = "isoDate t @ '' '' @ isoTime t"
  let ?four = "0 \<le> YearFromTime t \<and> YearFromTime t \<le> 9999"
  let ?range = "- 62167219200000 \<le> t \<and> t < 253402300800000"
  have range: "?four \<longleftrightarrow> ?range"
    by (rule four_digit_year)
  show "if ?range then matchesTemplate ''YYYY-MM-DD HH:MM:SS.sssZ'' ?s
        else (\<exists>sign rest. ?s = sign # rest \<and> (sign = CHR ''+'' \<or> sign = CHR ''-'')
                \<and> matchesTemplate ''YYYYYY-MM-DD HH:MM:SS.sssZ'' rest)"
  proof (cases ?four)
    case True
    then have "matchesTemplate ''YYYY-MM-DD HH:MM:SS.sssZ'' ?s"
      using matches_canonical [of t] by blast
    moreover from True range have ?range by blast
    ultimately show ?thesis by (simp only: if_True simp_thms)
  next
    case False
    define sign where "sign = (if YearFromTime t < 0 then CHR ''-'' else CHR ''+'')"
    define rest where "rest = tl ?s"
    note e = matches_expanded [OF False]
    have a: "?s = sign # rest"
      unfolding sign_def rest_def by (rule e [THEN conjunct1])
    have b: "matchesTemplate ''YYYYYY-MM-DD HH:MM:SS.sssZ'' rest"
      unfolding rest_def by (rule e [THEN conjunct2])
    have c: "sign = CHR ''+'' \<or> sign = CHR ''-''"
      unfolding sign_def by (cases "YearFromTime t < 0") (simp_all only: if_True if_False simp_thms)
    from a b c have "\<exists>sign rest. ?s = sign # rest \<and> (sign = CHR ''+'' \<or> sign = CHR ''-'')
        \<and> matchesTemplate ''YYYYYY-MM-DD HH:MM:SS.sssZ'' rest"
      by blast
    moreover from False range have "\<not> ?range" by blast
    ultimately show ?thesis by (simp only: if_False simp_thms)
  qed
qed

subsection \<open>Worked examples\<close>

text \<open>Evaluation at 2025-03-28T12:30:45.000Z, the example of the module's documentation.\<close>

lemma example_year: "YearFromTime 1743165045000 = 2025"
proof -
  have "TimeFromYear 2025 \<le> 1743165045000" "\<not> TimeFromYear 2026 \<le> 1743165045000"
    by (simp_all add: TimeFromYear_def DayFromYear_def msPerDay_def)
  with YearFromTime_largest [of 2025 1743165045000] YearFromTime_largest [of 2026 1743165045000]
  show ?thesis by arith
qed

lemma example_day: "DayWithinYear 1743165045000 = 86" "InLeapYear 1743165045000 = 0"
  by (simp_all add: DayWithinYear_def InLeapYear_def example_year DayFromYear_def DaysInYear_def
      Day_def msPerDay_def)

lemma example_month: "MonthFromTime 1743165045000 = 2"
  by (simp add: MonthFromTime_def example_day)

lemma example_isoDate: "isoDate 1743165045000 = ''2025-03-28''"
  by (simp add: isoDate_def example_year example_month example_day DateFromTime_def
      yearString_def pad_4 pad_2 digitChar_def)

lemma example_isoTime: "isoTime 1743165045000 = ''12:30:45.000Z''"
  by (simp add: isoTime_def HourFromTime_def MinFromTime_def SecFromTime_def msFromTime_def
      msPerHour_def msPerMinute_def msPerSecond_def pad_3 pad_2 digitChar_def)

lemma example_inTimeRange: "inTimeRange 1743165045000"
  by (simp add: inTimeRange_def maxTime_def)

lemma example_ecmaToISOString: "ecmaToISOString 1743165045000 = ''2025-03-28T12:30:45.000Z''"
  by (simp add: ecmaToISOString_def example_isoDate example_isoTime)

lemma example_parse:
  "parse (ECMAScript rejectOther) ''2025-03-28T12:30:45.000Z'' = Some 1743165045000"
  using parseDateTime_ecmaToISOString [OF example_inTimeRange]
  by (simp add: example_ecmaToISOString ECMAScript_def ecmaParse_def)

lemma example_spaceSeparated:
  "toISOString spaceSeparatedHost 1743165045000 = ''2025-03-28 12:30:45.000Z''"
  by (simp add: spaceSeparatedHost_def spaceSeparatedISOString_def example_ecmaToISOString
      replaceAll_def)

lemma example_dateOnly: "toISOString dateOnlyHost 1743165045000 = ''2025-03-28''"
  by (simp add: dateOnlyHost_def example_isoDate)

text \<open>A string that is no date in any format the host must read.\<close>

lemma readDigits_no_digit: "0 < w \<Longrightarrow> \<not> isDigit c \<Longrightarrow> readDigits w (c # cs) = None"
  by (cases w) simp_all

lemma example_not_a_date: "parse (ECMAScript rejectOther) ''notTaTdate'' = None"
proof -
  have "readDigits 4 ''notTaTdate'' = None"
    by (rule readDigits_no_digit) (simp_all add: isDigit_def)
  then have "readYear ''notTaTdate'' = None"
    by (simp add: readYear_def)
  then show ?thesis
    by (simp add: ECMAScript_def ecmaParse_def parseDateTime_def rejectOther_def)
qed

text \<open>Evaluation at 10000-01-01T00:00:00.000Z, the first instant of the year 10000.\<close>

lemma year10000_year: "YearFromTime 253402300800000 = 10000"
proof -
  have "TimeFromYear 10000 \<le> 253402300800000" "\<not> TimeFromYear 10001 \<le> 253402300800000"
    by (simp_all add: TimeFromYear_def DayFromYear_def msPerDay_def)
  with YearFromTime_largest [of 10000 253402300800000]
    YearFromTime_largest [of 10001 253402300800000]
  show ?thesis by arith
qed

lemma year10000_day: "DayWithinYear 253402300800000 = 0" "InLeapYear 253402300800000 = 1"
  by (simp_all add: DayWithinYear_def InLeapYear_def year10000_year DayFromYear_def DaysInYear_def
      Day_def msPerDay_def)

lemma year10000_month: "MonthFromTime 253402300800000 = 0"
  by (simp add: MonthFromTime_def year10000_day)

lemma year10000_isoDate: "isoDate 253402300800000 = ''+010000-01-01''"
  by (simp add: isoDate_def year10000_year year10000_month year10000_day DateFromTime_def
      yearString_def pad_6 pad_2 digitChar_def)

lemma year10000_isoTime: "isoTime 253402300800000 = ''00:00:00.000Z''"
  by (simp add: isoTime_def HourFromTime_def MinFromTime_def SecFromTime_def msFromTime_def
      msPerHour_def msPerMinute_def msPerSecond_def pad_3 pad_2 digitChar_def)

lemma year10000_inTimeRange: "inTimeRange 253402300800000"
  by (simp add: inTimeRange_def maxTime_def)

section \<open>The claims\<close>

text \<open>
  C1. For every valid date, \<^verbatim>\<open>dateToRFC3339\<close> succeeds and \<^verbatim>\<open>rfc3339ToDate\<close> applied to its
  result succeeds with a date of the same time value. The time value of a valid date is any
  within the range of \<^verbatim>\<open>TimeClip\<close>, which is all that a \<^verbatim>\<open>Date\<close> can hold; the host may
  answer anything on strings outside the standard format.
\<close>

theorem roundtrip_date:
  assumes "inTimeRange t"
  shows "dateToRFC3339 (ECMAScript other) (Date (Some t)) = Succeed (isoDate t @ '' '' @ isoTime t)
         \<and> snd (rfc3339ToDate (ECMAScript other) (isoDate t @ '' '' @ isoTime t))
             = Succeed (Date (Some t))"
  using rfc3339ToDate_canonical [OF assms, of other] dateToRFC3339_ecma [of other t] by simp

theorem roundtrip_date_witness:
  "inTimeRange 1743165045000
   \<and> dateToRFC3339 (ECMAScript rejectOther) (Date (Some 1743165045000))
       = Succeed ''2025-03-28 12:30:45.000Z''
   \<and> snd (rfc3339ToDate (ECMAScript rejectOther) ''2025-03-28 12:30:45.000Z'')
       = Succeed (Date (Some 1743165045000))"
  using roundtrip_date [OF example_inTimeRange, of rejectOther]
  by (simp add: example_isoDate example_isoTime example_inTimeRange)

text \<open>
  C2. \<^verbatim>\<open>assertRFC3339Date\<close> is idempotent on the inputs it accepts: its result is accepted
  again and is returned unchanged.
\<close>

theorem assertRFC3339Date_idempotent:
  assumes "snd (assertRFC3339Date (ECMAScript other) s) = Succeed r"
  shows "snd (assertRFC3339Date (ECMAScript other) r) = Succeed r"
proof -
  let ?E = "ECMAScript other"
  from assms obtain d where d: "snd (rfc3339ToDate ?E s) = Succeed d" "dateToRFC3339 ?E d = Succeed r"
    by (cases "snd (rfc3339ToDate ?E s)") (simp_all add: assertRFC3339Date_def Let_def)
  from d(1) obtain t where t: "d = Date (Some t)" "inTimeRange t"
    using rfc3339ToDate_Succeed by blast
  from d(2) t(1) have r: "r = isoDate t @ '' '' @ isoTime t"
    by (simp add: dateToRFC3339_ecma)
  have "snd (rfc3339ToDate ?E r) = Succeed (Date (Some t))"
    unfolding r using rfc3339ToDate_canonical [OF t(2), of other] by simp
  then show ?thesis
    using d(2) t(1) by (simp add: assertRFC3339Date_def Let_def)
qed

theorem assertRFC3339Date_idempotent_witness:
  "snd (assertRFC3339Date (ECMAScript rejectOther) ''2025-03-28T12:30:45.000Z'')
     = Succeed ''2025-03-28 12:30:45.000Z''
   \<and> snd (assertRFC3339Date (ECMAScript rejectOther) ''2025-03-28 12:30:45.000Z'')
     = Succeed ''2025-03-28 12:30:45.000Z''"
proof -
  have tr: "fst (rfc3339ToDate (ECMAScript rejectOther) ''2025-03-28T12:30:45.000Z'')
            = [''2025-03-28T12:30:45.000Z'']"
    by (simp add: formatted_trace)
  have "snd (rfc3339ToDate (ECMAScript rejectOther) ''2025-03-28T12:30:45.000Z'')
        = Succeed (Date (Some 1743165045000))"
    using rfc3339ToDate_result [OF _ tr] example_inTimeRange by (simp add: example_parse)
  then have 1: "snd (assertRFC3339Date (ECMAScript rejectOther) ''2025-03-28T12:30:45.000Z'')
                = Succeed ''2025-03-28 12:30:45.000Z''"
    by (simp add: assertRFC3339Date_def Let_def dateToRFC3339_ecma example_isoDate example_isoTime)
  from 1 assertRFC3339Date_idempotent [OF 1] show ?thesis by simp
qed

text \<open>
  C3, as amended. For a non-empty input that contains a space and no \<^verbatim>\<open>T\<close>, the date is
  constructed from the input with every space replaced by \<^verbatim>\<open>T\<close>; for a non-empty input
  that contains a \<^verbatim>\<open>T\<close> or no space, it is constructed from the input unchanged. In both
  cases \<^verbatim>\<open>new Date\<close> is called exactly once.
\<close>

theorem separator_rewrite:
  assumes "s \<noteq> []"
  shows "fst (rfc3339ToDate P s)
         = [if CHR '' '' \<in> set s \<and> CHR ''T'' \<notin> set s
            then replaceAll CHR '' '' CHR ''T'' s else s]"
  using assms by (rule formatted_trace)

theorem separator_rewrite_witness:
  "''2025-03-28 12:30:45 +00:00'' \<noteq> []
   \<and> fst (rfc3339ToDate (ECMAScript rejectOther) ''2025-03-28 12:30:45 +00:00'')
       = [''2025-03-28T12:30:45T+00:00'']
   \<and> fst (rfc3339ToDate (ECMAScript rejectOther) ''2025-03-28T12:30:45 +00:00'')
       = [''2025-03-28T12:30:45 +00:00'']
   \<and> fst (rfc3339ToDate (ECMAScript rejectOther) ''2025-03-28'') = [''2025-03-28'']"
  using separator_rewrite [of "''2025-03-28 12:30:45 +00:00''" "ECMAScript rejectOther"]
    separator_rewrite [of "''2025-03-28T12:30:45 +00:00''" "ECMAScript rejectOther"]
    separator_rewrite [of "''2025-03-28''" "ECMAScript rejectOther"]
  by (simp add: replaceAll_def)

text \<open>
  The claim as stated, with only the first space replaced, fails on an input with two
  spaces: the second space is replaced as well. Its second half includes the empty input,
  which contains neither separator, and for which no date is constructed at all.
\<close>

theorem separator_rewrite_first_only_counterexample:
  "''2025-03-28 12:30:45 +00:00'' \<noteq> []
   \<and> CHR '' '' \<in> set ''2025-03-28 12:30:45 +00:00''
   \<and> CHR ''T'' \<notin> set ''2025-03-28 12:30:45 +00:00''
   \<and> replaceFirst CHR '' '' CHR ''T'' ''2025-03-28 12:30:45 +00:00'' = ''2025-03-28T12:30:45 +00:00''
   \<and> fst (rfc3339ToDate (ECMAScript rejectOther) ''2025-03-28 12:30:45 +00:00'')
       = [''2025-03-28T12:30:45T+00:00'']
   \<and> fst (rfc3339ToDate (ECMAScript rejectOther) ''2025-03-28 12:30:45 +00:00'')
       \<noteq> [replaceFirst CHR '' '' CHR ''T'' ''2025-03-28 12:30:45 +00:00'']
   \<and> fst (rfc3339ToDate (ECMAScript rejectOther) []) = []"
  by (simp add: formatted_trace replaceAll_def empty_trace)

text \<open>
  C4. For every valid date \<^verbatim>\<open>dateToRFC3339\<close> succeeds with a string of the shape
  \<^verbatim>\<open>YYYY-MM-DD HH:MM:SS.sssZ\<close>, as the documentation of the function says. The code does not
  keep this on the first instant of the year 10000, a time value every \<^verbatim>\<open>Date\<close> can hold:
  the result carries a sign and six digits of year.
\<close>

theorem canonical_shape_year_10000:
  "inTimeRange 253402300800000
   \<and> dateToRFC3339 (ECMAScript rejectOther) (Date (Some 253402300800000))
     = Succeed ''+010000-01-01 00:00:00.000Z''
   \<and> \<not> matchesTemplate ''YYYY-MM-DD HH:MM:SS.sssZ'' ''+010000-01-01 00:00:00.000Z''"
  by (simp add: dateToRFC3339_ecma year10000_isoDate year10000_isoTime year10000_inTimeRange
      isDigit_def)

text \<open>
  C5. When the date constructed from the rewritten string is invalid, \<^verbatim>\<open>rfc3339ToDate\<close> fails
  with \<^verbatim>\<open>dateInvalidFormat\<close> and a message that quotes the input as it was given.
\<close>

theorem invalid_string_error:
  assumes "s \<noteq> []" "fst (rfc3339ToDate P s) = [f]" "isNaN (getTime (newDate P f))"
  shows "snd (rfc3339ToDate P s)
         = Fail \<lparr>type = dateInvalidFormat,
                  message = ''The provided date string '' @ [CHR 0x22] @ s @ [CHR 0x22]
                            @ '' is invalid.''\<rparr>"
  using assms rfc3339ToDate_result [OF assms(1,2)]
  by (simp add: newDate_def isNaN_def dquote_def)

theorem invalid_string_error_witness:
  "''not a date'' \<noteq> []
   \<and> fst (rfc3339ToDate (ECMAScript rejectOther) ''not a date'') = [''notTaTdate'']
   \<and> isNaN (getTime (newDate (ECMAScript rejectOther) ''notTaTdate''))
   \<and> snd (rfc3339ToDate (ECMAScript rejectOther) ''not a date'')
       = Fail \<lparr>type = dateInvalidFormat,
                message = ''The provided date string '' @ [CHR 0x22] @ ''not a date'' @ [CHR 0x22]
                          @ '' is invalid.''\<rparr>"
proof -
  have 1: "''not a date'' \<noteq> []" by simp
  have 2: "fst (rfc3339ToDate (ECMAScript rejectOther) ''not a date'') = [''notTaTdate'']"
    by (simp add: formatted_trace replaceAll_def)
  have 3: "isNaN (getTime (newDate (ECMAScript rejectOther) ''notTaTdate''))"
    by (simp add: newDate_def isNaN_def example_not_a_date)
  from 1 2 3 invalid_string_error [OF 1 2 3] show ?thesis by simp
qed

text \<open>
  C6. On the empty string \<^verbatim>\<open>rfc3339ToDate\<close> fails with \<^verbatim>\<open>dateInvalidFormat\<close> and the message
  "The provided date string is empty.", and constructs no date.
\<close>

theorem empty_string_error:
  "rfc3339ToDate P [] =
     ([], Fail \<lparr>type = dateInvalidFormat, message = ''The provided date string is empty.''\<rparr>)"
  by (simp add: rfc3339ToDate_def)

theorem empty_string_error_witness:
  "rfc3339ToDate (ECMAScript rejectOther) '''' =
     ([], Fail \<lparr>type = dateInvalidFormat, message = ''The provided date string is empty.''\<rparr>)"
  by (rule empty_string_error)

text \<open>
  C7. On an invalid date \<^verbatim>\<open>dateToRFC3339Parts\<close> fails with \<^verbatim>\<open>dateInvalid\<close> and the message
  "The provided date is invalid.", and \<^verbatim>\<open>dateToRFC3339\<close> fails with the same error value.
\<close>

theorem invalid_date_error:
  assumes "isNaN (getTime d)"
  shows "dateToRFC3339Parts P d
           = Fail \<lparr>type = dateInvalid, message = ''The provided date is invalid.''\<rparr>
         \<and> dateToRFC3339 P d
           = Fail \<lparr>type = dateInvalid, message = ''The provided date is invalid.''\<rparr>"
  using assms by (simp add: dateToRFC3339_def dateToRFC3339Parts_def isNaN_def)

theorem invalid_date_error_witness:
  "isNaN (getTime (Date None))
   \<and> dateToRFC3339Parts (ECMAScript rejectOther) (Date None)
       = Fail \<lparr>type = dateInvalid, message = ''The provided date is invalid.''\<rparr>
   \<and> dateToRFC3339 (ECMAScript rejectOther) (Date None)
       = Fail \<lparr>type = dateInvalid, message = ''The provided date is invalid.''\<rparr>"
proof -
  have 1: "isNaN (getTime (Date None))" by (simp add: isNaN_def)
  from 1 invalid_date_error [OF 1] show ?thesis by simp
qed

text \<open>
  C8. An input that contains a \<^verbatim>\<open>T\<close> is never rewritten: the date is constructed from the
  input as given, whether or not it contains spaces.
\<close>

theorem contains_T_unchanged:
  assumes "CHR ''T'' \<in> set s"
  shows "fst (rfc3339ToDate P s) = [s]"
proof -
  from assms have "s \<noteq> []" by auto
  then show ?thesis using assms by (simp add: formatted_trace)
qed

theorem contains_T_unchanged_witness:
  "CHR ''T'' \<in> set ''2025-03-28T12:30:45 +00:00''
   \<and> fst (rfc3339ToDate (ECMAScript rejectOther) ''2025-03-28T12:30:45 +00:00'')
       = [''2025-03-28T12:30:45 +00:00'']"
proof -
  have 1: "CHR ''T'' \<in> set ''2025-03-28T12:30:45 +00:00''" by simp
  from 1 contains_T_unchanged [OF 1] show ?thesis by simp
qed

text \<open>
  C9, as amended. On the ECMAScript host \<^verbatim>\<open>dateToRFC3339Parts\<close> never throws on a valid date:
  it returns the date segment and the time segment. For any serializer: an output with
  exactly one \<^verbatim>\<open>T\<close> is split there into exactly two segments; an output without exactly one
  \<^verbatim>\<open>T\<close> but with exactly one space is split at the space into exactly two segments; any
  other output raises the exception, and is not reported as a typed error value.
\<close>

theorem parts_never_throws:
  "dateToRFC3339Parts (ECMAScript other) (Date (Some t)) = Succeed [isoDate t, isoTime t]
   \<and> (count_list (toISOString P t) CHR ''T'' = 1 \<longrightarrow>
        length (split (toISOString P t) CHR ''T'') = 2
        \<and> dateToRFC3339Parts P (Date (Some t)) = Succeed (split (toISOString P t) CHR ''T''))
   \<and> (count_list (toISOString P t) CHR ''T'' \<noteq> 1 \<and> count_list (toISOString P t) CHR '' '' = 1 \<longrightarrow>
        length (split (toISOString P t) CHR '' '') = 2
        \<and> dateToRFC3339Parts P (Date (Some t)) = Succeed (split (toISOString P t) CHR '' ''))
   \<and> (count_list (toISOString P t) CHR ''T'' \<noteq> 1 \<and> count_list (toISOString P t) CHR '' '' \<noteq> 1 \<longrightarrow>
        dateToRFC3339Parts P (Date (Some t))
          = Thrown ''Expected date to ISO string to contain a 'T' or ' ' separator.'')"
proof (intro conjI)
  show "dateToRFC3339Parts (ECMAScript other) (Date (Some t)) = Succeed [isoDate t, isoTime t]"
    by (rule parts_ecma)
qed (simp_all add: parts_by_count length_split)

theorem parts_never_throws_witness:
  "count_list (toISOString (ECMAScript rejectOther) 1743165045000) CHR ''T'' = 1
   \<and> dateToRFC3339Parts (ECMAScript rejectOther) (Date (Some 1743165045000))
       = Succeed [''2025-03-28'', ''12:30:45.000Z'']
   \<and> count_list (toISOString spaceSeparatedHost 1743165045000) CHR ''T'' \<noteq> 1
   \<and> count_list (toISOString spaceSeparatedHost 1743165045000) CHR '' '' = 1
   \<and> dateToRFC3339Parts spaceSeparatedHost (Date (Some 1743165045000))
       = Succeed [''2025-03-28'', ''12:30:45.000Z'']
   \<and> count_list (toISOString dateOnlyHost 1743165045000) CHR ''T'' \<noteq> 1
   \<and> count_list (toISOString dateOnlyHost 1743165045000) CHR '' '' \<noteq> 1
   \<and> dateToRFC3339Parts dateOnlyHost (Date (Some 1743165045000))
       = Thrown ''Expected date to ISO string to contain a 'T' or ' ' separator.''"
proof -
  have iso: "toISOString (ECMAScript rejectOther) 1743165045000 = ''2025-03-28T12:30:45.000Z''"
    by (simp add: ECMAScript_def example_ecmaToISOString)
  show ?thesis
    using parts_never_throws [of rejectOther 1743165045000 "ECMAScript rejectOther"]
      parts_never_throws [of rejectOther 1743165045000 spaceSeparatedHost]
      parts_never_throws [of rejectOther 1743165045000 dateOnlyHost]
    unfolding iso example_spaceSeparated example_dateOnly
    by simp
qed

text \<open>
  The claim as stated, that any output without exactly one \<^verbatim>\<open>T\<close> makes the operation throw,
  fails on a serializer that separates with a space: the fallback splits at the space.
\<close>

theorem parts_space_fallback_counterexample:
  "count_list (toISOString spaceSeparatedHost 1743165045000) CHR ''T'' = 0
   \<and> dateToRFC3339Parts spaceSeparatedHost (Date (Some 1743165045000))
       = Succeed [''2025-03-28'', ''12:30:45.000Z'']"
  unfolding parts_by_count example_spaceSeparated by simp

text \<open>
  C10. For every valid date the result of \<^verbatim>\<open>dateToRFC3339\<close> is the output of
  \<^verbatim>\<open>toISOString\<close> with its \<^verbatim>\<open>T\<close>, which occurs exactly once, replaced by a space.
\<close>

theorem iso_with_space:
  "count_list (ecmaToISOString t) CHR ''T'' = 1
   \<and> dateToRFC3339 (ECMAScript other) (Date (Some t))
       = Succeed (replaceAll CHR ''T'' CHR '' '' (ecmaToISOString t))"
proof -
  have "replaceAll CHR ''T'' CHR '' '' (ecmaToISOString t) = isoDate t @ '' '' @ isoTime t"
    by (simp add: ecmaToISOString_def replaceAll_append replaceAll_Cons replaceAll_absent
        isoDate_no_separator isoTime_no_separator)
  then show ?thesis
    by (simp add: count_T_ecmaToISOString dateToRFC3339_ecma)
qed

theorem iso_with_space_witness:
  "count_list ''2025-03-28T12:30:45.000Z'' CHR ''T'' = 1
   \<and> dateToRFC3339 (ECMAScript rejectOther) (Date (Some 1743165045000))
       = Succeed ''2025-03-28 12:30:45.000Z''"
  using iso_with_space [of 1743165045000 rejectOther]
  unfolding example_ecmaToISOString by (simp add: replaceAll_def)

end
